theory Spec2Isabelle
  imports Complex_Main
begin

section \<open>Data model\<close>

text \<open>
  The program keeps each station as a Python list of nine items, read by position
  (\<open>ID = 0\<close>, \<open>NAME = 1\<close>, \<open>LATITUDE = 2\<close>, \<open>LONGITUDE = 3\<close>, \<open>CAPACITY = 4\<close>,
  \<open>BIKES_AVAILABLE = 5\<close>, \<open>DOCKS_AVAILABLE = 6\<close>, \<open>IS_RENTING = 7\<close>,
  \<open>IS_RETURNING = 8\<close>). A station is a record with one field per position; the field
  for position 0 is called \<open>station_id\<close>. Python integers are unbounded, hence \<open>int\<close>.
  The two coordinates are Python floats; the only function that reads them is
  \<open>get_direction\<close>, whose arithmetic is modelled over the reals (see there).
  The repository (\<open>SystemData\<close>) is the list of stations, in the caller's order.
\<close>

record station =
  station_id :: int
  name :: string
  latitude :: real
  longitude :: real
  capacity :: int
  bikes_available :: int
  docks_available :: int
  is_renting :: bool
  is_returning :: bool

type_synonym system_data = "station list"

text \<open>The exceptions a call can end with.\<close>

datatype error = ZeroDivisionError | OverflowError | ValueError | IndexError | UnboundLocalError

text \<open>
  The two sample repositories of the source file; the two stations of the second one
  are named, to be referred to one by one.
\<close>

definition SAMPLE_STATIONS :: system_data where
  "SAMPLE_STATIONS =
    [\<lparr>station_id = 7087, name = ''Danforth/Aldridge'', latitude = 43.684371,
      longitude = -79.316756, capacity = 23, bikes_available = 9, docks_available = 14,
      is_renting = True, is_returning = True\<rparr>,
     \<lparr>station_id = 7088, name = ''Danforth/Coxwell'', latitude = 43.683378,
      longitude = -79.322961, capacity = 15, bikes_available = 13, docks_available = 2,
      is_renting = False, is_returning = False\<rparr>]"

definition FT_YORK :: station where
  "FT_YORK =
     \<lparr>station_id = 7000, name = ''Ft. York / Capreol Crt.'', latitude = 43.639832,
      longitude = -79.395954, capacity = 31, bikes_available = 20, docks_available = 11,
      is_renting = True, is_returning = True\<rparr>"

definition LOWER_JARVIS :: station where
  "LOWER_JARVIS =
     \<lparr>station_id = 7001, name = ''Lower Jarvis St / The Esplanade'', latitude = 43.647992,
      longitude = -79.370907, capacity = 15, bikes_available = 5, docks_available = 10,
      is_renting = True, is_returning = True\<rparr>"

definition HANDOUT_STATIONS :: system_data where
  "HANDOUT_STATIONS = [FT_YORK, LOWER_JARVIS]"

section \<open>Queries\<close>

text \<open>
  \<open>get_station_info\<close> appends the name and the two counts of every station that
  carries the id; the result is a list of Python objects, here strings and integers.
\<close>

datatype item = Str string | Num int

fun info_loop :: "int \<Rightarrow> system_data \<Rightarrow> item list \<Rightarrow> item list" where
  "info_loop sid [] avaliable_bikes_docks = avaliable_bikes_docks"
| "info_loop sid (s # ss) avaliable_bikes_docks =
     (if station_id s = sid
      then info_loop sid ss
             (avaliable_bikes_docks @
                [Str (name s), Num (bikes_available s), Num (docks_available s)])
      else info_loop sid ss avaliable_bikes_docks)"

definition get_station_info :: "int \<Rightarrow> system_data \<Rightarrow> item list" where
  "get_station_info sid stations = info_loop sid stations []"

text \<open>
  \<open>get_total\<close> adds up one column. The column is given by its accessor instead of
  its position; the precondition of the source (the items of the column are ints) leaves
  the integer columns.
\<close>

fun total_loop :: "(station \<Rightarrow> int) \<Rightarrow> system_data \<Rightarrow> int \<Rightarrow> int" where
  "total_loop column [] tot = tot"
| "total_loop column (s # ss) tot = total_loop column ss (tot + column s)"

definition get_total :: "(station \<Rightarrow> int) \<Rightarrow> system_data \<Rightarrow> int" where
  "get_total column stations = total_loop column stations 0"

text \<open>
  \<open>get_station_with_max_bikes\<close> collects the bike counts, takes Python's \<open>max\<close> of
  them (a \<open>ValueError\<close> on the empty list), then \<open>list.index\<close> of that value (the
  first position holding it), and reads the id at that position.
\<close>

fun max_bikes_loop :: "system_data \<Rightarrow> int list \<Rightarrow> int list" where
  "max_bikes_loop [] max_bikes = max_bikes"
| "max_bikes_loop (s # ss) max_bikes = max_bikes_loop ss (max_bikes @ [bikes_available s])"

fun py_max_from :: "int \<Rightarrow> int list \<Rightarrow> int" where
  "py_max_from m [] = m"
| "py_max_from m (x # xs) = py_max_from (if m < x then x else m) xs"

definition py_max :: "int list \<Rightarrow> error + int" where
  "py_max xs = (case xs of [] \<Rightarrow> Inl ValueError | x # xs' \<Rightarrow> Inr (py_max_from x xs'))"

fun py_index :: "int list \<Rightarrow> int \<Rightarrow> error + nat" where
  "py_index [] v = Inl ValueError"
| "py_index (x # xs) v =
     (if x = v then Inr 0
      else (case py_index xs v of Inl e \<Rightarrow> Inl e | Inr i \<Rightarrow> Inr (Suc i)))"

definition get_station_with_max_bikes :: "system_data \<Rightarrow> error + int" where
  "get_station_with_max_bikes stations =
     (let max_bikes = max_bikes_loop stations []
      in case py_max max_bikes of
           Inl e \<Rightarrow> Inl e
         | Inr m \<Rightarrow>
            (case py_index max_bikes m of
               Inl e \<Rightarrow> Inl e
             | Inr maximum \<Rightarrow>
                 if maximum < length stations then Inr (station_id (stations ! maximum))
                 else Inl IndexError))"

fun n_docks_loop :: "int \<Rightarrow> system_data \<Rightarrow> int list \<Rightarrow> int list" where
  "n_docks_loop n [] stations_with_n_docks = stations_with_n_docks"
| "n_docks_loop n (s # ss) stations_with_n_docks =
     (if docks_available s \<ge> n
      then n_docks_loop n ss (stations_with_n_docks @ [station_id s])
      else n_docks_loop n ss stations_with_n_docks)"

definition get_stations_with_n_docks :: "int \<Rightarrow> system_data \<Rightarrow> int list" where
  "get_stations_with_n_docks n stations = n_docks_loop n stations []"

section \<open>Direction between two stations\<close>

text \<open>
  \<open>get_direction\<close> scans the repository once. A station carrying \<open>start_id\<close>
  sets the start coordinates; otherwise (\<open>elif\<close>) a station carrying \<open>end_id\<close> sets
  the end coordinates. The loop never breaks, so the last match wins. A pair of
  coordinates that was never assigned is \<open>None\<close> here, and reading it raises
  \<open>UnboundLocalError\<close>.
\<close>

fun coords_loop ::
  "int \<Rightarrow> int \<Rightarrow> system_data \<Rightarrow> (real \<times> real) option \<Rightarrow> (real \<times> real) option
     \<Rightarrow> (real \<times> real) option \<times> (real \<times> real) option" where
  "coords_loop start_id end_id [] start_pos end_pos = (start_pos, end_pos)"
| "coords_loop start_id end_id (s # ss) start_pos end_pos =
     (if station_id s = start_id
      then coords_loop start_id end_id ss (Some (latitude s, longitude s)) end_pos
      else if station_id s = end_id
      then coords_loop start_id end_id ss start_pos (Some (latitude s, longitude s))
      else coords_loop start_id end_id ss start_pos end_pos)"

text \<open>
  The float arithmetic of this function is idealised: coordinates are real numbers,
  subtraction, multiplication and division are exact, \<open>math.pi\<close> is \<open>pi\<close> and
  \<open>math.atan2\<close> is the two-argument arctangent on the reals, with values in
  \<open>(-pi, pi]\<close>. (The library's \<open>atan2\<close> is a platform routine with no exact
  executable description; the results below are stated at inputs whose angle lies far
  from every boundary of the table, where a rounding error of a few units in the last
  place cannot change the branch taken.)
\<close>

definition atan2 :: "real \<Rightarrow> real \<Rightarrow> real" where
  "atan2 y x =
     (if 0 < x then arctan (y / x)
      else if x < 0 then (if 0 \<le> y then arctan (y / x) + pi else arctan (y / x) - pi)
      else if 0 < y then pi / 2
      else if y < 0 then - pi / 2
      else 0)"

text \<open>
  The chain of comparisons at the end of \<open>get_direction\<close>, in the order of the
  source. When no branch is taken the Python function falls off its end and returns
  \<open>None\<close>.
\<close>

definition direction_of :: "real \<Rightarrow> string option" where
  "direction_of degree =
     (if (degree > - 22.5 \<and> degree < 0) \<or> (degree < 22.5 \<and> degree > 0) then Some ''WEST''
      else if degree \<ge> 22.5 \<and> degree \<le> 67.5 then Some ''SOUTHWEST''
      else if degree > 67.5 \<and> degree < 112.5 then Some ''SOUTH''
      else if degree \<ge> 112.5 \<and> degree \<le> 157.5 then Some ''SOUTHEAST''
      else if (degree > 157.5 \<and> degree < 180) \<or> (degree < - 157.5 \<and> degree > - 180)
      then Some ''EAST''
      else if degree \<ge> - 157.5 \<and> degree \<le> - 112.5 then Some ''NORTHEAST''
      else if degree > - 112.5 \<and> degree < - 67.5 then Some ''NORTH''
      else if degree \<ge> - 67.5 \<and> degree \<ge> - 22.5 then Some ''NORTHWEST''
      else None)"

definition get_direction :: "int \<Rightarrow> int \<Rightarrow> system_data \<Rightarrow> error + string option" where
  "get_direction start_id end_id stations =
     (case coords_loop start_id end_id stations None None of
        (None, _) \<Rightarrow> Inl UnboundLocalError
      | (Some _, None) \<Rightarrow> Inl UnboundLocalError
      | (Some (latitude_start, longitude_start), Some (latitude_end, longitude_end)) \<Rightarrow>
          (let longitude_start' =
                 (if longitude_start = longitude_end then longitude_start + 0.00001
                  else longitude_start);
               degree = (180 * atan2 (latitude_start - latitude_end)
                                     (longitude_start' - longitude_end)) / pi
           in Inr (direction_of degree)))"

text \<open>
  The bucket table of the specification, with the NORTHWEST sector read as
  \<open>[-67.5, -22.5)\<close> and the WEST sector as the open interval from \<open>-22.5\<close> to
  \<open>22.5\<close>. It is written from the specification's table, to be compared with
  \<open>direction_of\<close>.
\<close>

definition spec_direction_of :: "real \<Rightarrow> string option" where
  "spec_direction_of degree =
     (if - 22.5 < degree \<and> degree < 22.5 then Some ''WEST''
      else if 22.5 \<le> degree \<and> degree \<le> 67.5 then Some ''SOUTHWEST''
      else if 67.5 < degree \<and> degree < 112.5 then Some ''SOUTH''
      else if 112.5 \<le> degree \<and> degree \<le> 157.5 then Some ''SOUTHEAST''
      else if (157.5 < degree \<and> degree < 180) \<or> (- 180 < degree \<and> degree < - 157.5)
      then Some ''EAST''
      else if - 157.5 \<le> degree \<and> degree \<le> - 112.5 then Some ''NORTHEAST''
      else if - 112.5 < degree \<and> degree < - 67.5 then Some ''NORTH''
      else if - 67.5 \<le> degree \<and> degree < - 22.5 then Some ''NORTHWEST''
      else None)"

section \<open>Rent and return\<close>

text \<open>
  \<open>rent_bike\<close> walks over every index and never breaks out of the loop, so every
  station carrying the id is visited. The loop is a recursion over the stations that
  are still to be visited, with the flag \<open>rental\<close> as accumulator; the function
  returns the flag together with the repository as the in-place updates leave it.
\<close>

fun rent_loop :: "int \<Rightarrow> system_data \<Rightarrow> bool \<Rightarrow> bool \<times> system_data" where
  "rent_loop sid [] rental = (rental, [])"
| "rent_loop sid (s # ss) rental =
     (if station_id s = sid \<and> is_renting s \<and> bikes_available s > 0
      then (let (r, ss') = rent_loop sid ss True
            in (r, s\<lparr>bikes_available := bikes_available s - 1,
                     docks_available := docks_available s + 1\<rparr> # ss'))
      else (let (r, ss') = rent_loop sid ss rental in (r, s # ss')))"

definition rent_bike :: "int \<Rightarrow> system_data \<Rightarrow> bool \<times> system_data" where
  "rent_bike sid stations = rent_loop sid stations False"

fun return_loop :: "int \<Rightarrow> system_data \<Rightarrow> bool \<Rightarrow> bool \<times> system_data" where
  "return_loop sid [] returning_bike = (returning_bike, [])"
| "return_loop sid (s # ss) returning_bike =
     (if station_id s = sid \<and> is_returning s \<and> docks_available s > 0
      then (let (r, ss') = return_loop sid ss True
            in (r, s\<lparr>bikes_available := bikes_available s + 1,
                     docks_available := docks_available s - 1\<rparr> # ss'))
      else (let (r, ss') = return_loop sid ss returning_bike in (r, s # ss')))"

definition return_bike :: "int \<Rightarrow> system_data \<Rightarrow> bool \<times> system_data" where
  "return_bike sid stations = return_loop sid stations False"

section \<open>Float arithmetic of the rebalance\<close>

text \<open>
  \<open>balance_all_bikes\<close> computes with Python floats (IEEE binary64). A finite float
  is the rational number it denotes; every operation gives the exact result rounded to
  the nearest float, ties to the even significand. \<open>fl\<close> is that rounding, with 53
  bits of significand and gradual underflow below \<open>2 ^ -1022\<close>; \<open>to_double\<close> adds
  the upper end of the range.

  Python raises \<open>OverflowError\<close> when an int is too large to become a float and when
  the quotient of two ints is. A float product or sum that is too large is \<open>inf\<close> in
  Python, with no exception at the operation; but every float of this program goes
  into \<open>round\<close> before the statement ends, \<open>inf\<close> stays \<open>inf\<close> under the
  operations in between, and \<open>round(inf)\<close> raises \<open>OverflowError\<close>. So the model
  raises the error at the operation that leaves the range. The sign of a zero is not
  kept: \<open>round\<close> gives the int \<open>0\<close> for both, and adding a zero of either sign to a
  nonzero float gives that float.
\<close>

function bit_length :: "int \<Rightarrow> int" where
  "bit_length n = (if n \<le> 0 then 0 else bit_length (n div 2) + 1)"
  by pat_completeness auto
termination
  by (relation "measure nat") auto

declare bit_length.simps [simp del]

definition pow2 :: "int \<Rightarrow> rat" where
  "pow2 e = (if 0 \<le> e then 2 ^ nat e else 1 / 2 ^ nat (- e))"

text \<open>The exponent of a positive rational: \<open>pow2 (ilog2 x) \<le> x < pow2 (ilog2 x + 1)\<close>.\<close>

definition ilog2 :: "rat \<Rightarrow> int" where
  "ilog2 x = (let (p, q) = quotient_of x;
                  d = bit_length p - bit_length q
              in if pow2 d \<le> x then d else d - 1)"

definition round_half_even :: "rat \<Rightarrow> int" where
  "round_half_even x =
     (let f = \<lfloor>x\<rfloor>; r = x - of_int f
      in if r < 1 / 2 then f
         else if 1 / 2 < r then f + 1
         else if even f then f else f + 1)"

definition fl :: "rat \<Rightarrow> rat" where
  "fl x = (if x = 0 then 0
           else (let e = max (ilog2 \<bar>x\<bar>) (- 1022); u = pow2 (e - 52)
                 in of_int (round_half_even (x / u)) * u))"

definition to_double :: "rat \<Rightarrow> error + rat" where
  "to_double x =
     (let y = fl x
      in if y \<noteq> 0 \<and> 1024 \<le> ilog2 \<bar>y\<bar> then Inl OverflowError else Inr y)"

text \<open>\<open>a / b\<close> on two ints: the exact quotient, correctly rounded.\<close>

definition int_truediv :: "int \<Rightarrow> int \<Rightarrow> error + rat" where
  "int_truediv a b =
     (if b = 0 then Inl ZeroDivisionError else to_double (of_int a / of_int b))"

text \<open>The conversion of an int operand that meets a float operand.\<close>

definition float_of_int :: "int \<Rightarrow> error + rat" where
  "float_of_int n = to_double (of_int n)"

definition float_mul :: "rat \<Rightarrow> rat \<Rightarrow> error + rat" where
  "float_mul x y = to_double (x * y)"

definition float_add :: "rat \<Rightarrow> rat \<Rightarrow> error + rat" where
  "float_add x y = to_double (x + y)"

definition float_sub :: "rat \<Rightarrow> rat \<Rightarrow> error + rat" where
  "float_sub x y = to_double (x - y)"

text \<open>\<open>round(x)\<close> on a float, with no second argument: the nearest int, ties to even.\<close>

definition py_round :: "rat \<Rightarrow> int" where
  "py_round x = round_half_even x"

section \<open>Rebalance\<close>

text \<open>
  \<open>round((a / b) * 100)\<close>, for ints \<open>a\<close> and \<open>b\<close>. The int \<open>100\<close> is a float as
  it stands.
\<close>

definition percentage :: "int \<Rightarrow> int \<Rightarrow> error + int" where
  "percentage a b =
     (case int_truediv a b of Inl e \<Rightarrow> Inl e | Inr q \<Rightarrow>
      (case float_mul q 100 of Inl e \<Rightarrow> Inl e | Inr p \<Rightarrow> Inr (py_round p)))"

text \<open>The first loop adds up the docks and the bikes of all stations.\<close>

fun totals_loop :: "system_data \<Rightarrow> int \<Rightarrow> int \<Rightarrow> int \<times> int" where
  "totals_loop [] overall_spaces overall_bikes = (overall_spaces, overall_bikes)"
| "totals_loop (s # ss) overall_spaces overall_bikes =
     totals_loop ss (overall_spaces + docks_available s) (overall_bikes + bikes_available s)"

definition overall_percentage :: "system_data \<Rightarrow> error + int" where
  "overall_percentage stations =
     (let (overall_spaces, overall_bikes) = totals_loop stations 0 0
      in percentage overall_bikes (overall_bikes + overall_spaces))"

text \<open>
  The three numbers that the second and the third loop compute for a station, each time
  in this order: \<open>station_average\<close>, \<open>number_remove\<close>, \<open>number_add\<close>. In
  \<open>-overall_percentage/100\<close> the minus sign applies to the int, before the division.
\<close>

definition station_average :: "station \<Rightarrow> error + int" where
  "station_average s =
     percentage (bikes_available s) (bikes_available s + docks_available s)"

definition number_remove :: "int \<Rightarrow> station \<Rightarrow> error + int" where
  "number_remove pct s =
     (case int_truediv (- pct) 100 of Inl e \<Rightarrow> Inl e | Inr q \<Rightarrow>
      (case float_of_int (bikes_available s + docks_available s) of Inl e \<Rightarrow> Inl e | Inr t \<Rightarrow>
      (case float_mul q t of Inl e \<Rightarrow> Inl e | Inr m \<Rightarrow>
      (case float_of_int (bikes_available s) of Inl e \<Rightarrow> Inl e | Inr b \<Rightarrow>
      (case float_add m b of Inl e \<Rightarrow> Inl e | Inr r \<Rightarrow> Inr (py_round r))))))"

definition number_add :: "int \<Rightarrow> station \<Rightarrow> error + int" where
  "number_add pct s =
     (case int_truediv pct 100 of Inl e \<Rightarrow> Inl e | Inr q \<Rightarrow>
      (case float_of_int (bikes_available s + docks_available s) of Inl e \<Rightarrow> Inl e | Inr t \<Rightarrow>
      (case float_mul q t of Inl e \<Rightarrow> Inl e | Inr m \<Rightarrow>
      (case float_of_int (bikes_available s) of Inl e \<Rightarrow> Inl e | Inr b \<Rightarrow>
      (case float_sub m b of Inl e \<Rightarrow> Inl e | Inr r \<Rightarrow> Inr (py_round r))))))"

text \<open>The second loop fills the two pools and changes no station.\<close>

fun pools_loop :: "int \<Rightarrow> system_data \<Rightarrow> int \<Rightarrow> int \<Rightarrow> error + int \<times> int" where
  "pools_loop pct [] excess_bikes deficit_bikes = Inr (excess_bikes, deficit_bikes)"
| "pools_loop pct (s # ss) excess_bikes deficit_bikes =
     (case station_average s of Inl e \<Rightarrow> Inl e | Inr avg \<Rightarrow>
      (case number_remove pct s of Inl e \<Rightarrow> Inl e | Inr nr \<Rightarrow>
      (case number_add pct s of Inl e \<Rightarrow> Inl e | Inr na \<Rightarrow>
       if avg > pct then pools_loop pct ss (excess_bikes + nr) deficit_bikes
       else if avg < pct then pools_loop pct ss excess_bikes (deficit_bikes + na)
       else pools_loop pct ss excess_bikes deficit_bikes)))"

text \<open>
  The third loop moves the bikes. It returns the exception it ended with, if any, and
  the repository as the in-place updates left it: on an exception the stations before
  the failing one keep their updates, the rest is untouched.
\<close>

fun move_loop :: "int \<Rightarrow> system_data \<Rightarrow> int \<Rightarrow> int \<Rightarrow> error option \<times> system_data" where
  "move_loop pct [] excess_bikes deficit_bikes = (None, [])"
| "move_loop pct (s # ss) excess_bikes deficit_bikes =
     (case station_average s of Inl e \<Rightarrow> (Some e, s # ss) | Inr avg \<Rightarrow>
      (case number_remove pct s of Inl e \<Rightarrow> (Some e, s # ss) | Inr nr \<Rightarrow>
      (case number_add pct s of Inl e \<Rightarrow> (Some e, s # ss) | Inr na \<Rightarrow>
       if avg > pct \<and> is_renting s \<and> excess_bikes > 0
       then (let (r, ss') = move_loop pct ss (excess_bikes - nr) deficit_bikes
             in (r, s\<lparr>bikes_available := bikes_available s - nr,
                      docks_available := docks_available s + nr\<rparr> # ss'))
       else if avg < pct \<and> is_returning s \<and> docks_available s > 0 \<and> deficit_bikes > 0
       then (let (r, ss') = move_loop pct ss excess_bikes (deficit_bikes - na)
             in (r, s\<lparr>bikes_available := bikes_available s + na,
                      docks_available := docks_available s - na\<rparr> # ss'))
       else (let (r, ss') = move_loop pct ss excess_bikes deficit_bikes
             in (r, s # ss')))))"

definition balance_all_bikes :: "system_data \<Rightarrow> error option \<times> system_data" where
  "balance_all_bikes stations =
     (case overall_percentage stations of
        Inl e \<Rightarrow> (Some e, stations)
      | Inr pct \<Rightarrow>
         (case pools_loop pct stations 0 0 of
            Inl e \<Rightarrow> (Some e, stations)
          | Inr (excess_bikes, deficit_bikes) \<Rightarrow>
              move_loop pct stations excess_bikes deficit_bikes))"

section \<open>What no operation touches, and the inputs of the examples\<close>

text \<open>
  The fields of a station that no function of the program assigns to: everything but
  the two counts.
\<close>

definition frame :: "station \<Rightarrow> int \<times> string \<times> real \<times> real \<times> int \<times> bool \<times> bool" where
  "frame s =
     (station_id s, name s, latitude s, longitude s, capacity s, is_renting s, is_returning s)"

text \<open>
  Two stations of 500 places each, both renting and returning: one full, one holding
  4 bikes. 504 bikes on 1000 places are 50.4 percent, which rounds to 50.
\<close>

definition FULL_STATION :: station where
  "FULL_STATION =
     \<lparr>station_id = 1, name = ''Full'', latitude = 43.65, longitude = -79.38, capacity = 500,
      bikes_available = 500, docks_available = 0, is_renting = True, is_returning = True\<rparr>"

definition SPARSE_STATION :: station where
  "SPARSE_STATION =
     \<lparr>station_id = 2, name = ''Sparse'', latitude = 43.66, longitude = -79.39, capacity = 500,
      bikes_available = 4, docks_available = 496, is_renting = True, is_returning = True\<rparr>"

text \<open>
  Two stations of 6 places: a full one that rents, and an empty one that takes no
  returns.
\<close>

definition SIX_BIKES :: station where
  "SIX_BIKES =
     \<lparr>station_id = 1, name = ''Six bikes'', latitude = 43.65, longitude = -79.38, capacity = 6,
      bikes_available = 6, docks_available = 0, is_renting = True, is_returning = True\<rparr>"

definition CLOSED_STATION :: station where
  "CLOSED_STATION =
     \<lparr>station_id = 2, name = ''Closed'', latitude = 43.66, longitude = -79.39, capacity = 6,
      bikes_available = 0, docks_available = 6, is_renting = False, is_returning = False\<rparr>"

text \<open>
  Two stations of 1000 places, one with 502 bikes and one with 498: 50.2 and 49.8
  percent, which both round to 50, the percentage of the two together.
\<close>

definition OVER_HALF :: station where
  "OVER_HALF =
     \<lparr>station_id = 1, name = ''Over half'', latitude = 43.65, longitude = -79.38,
      capacity = 1000, bikes_available = 502, docks_available = 498,
      is_renting = True, is_returning = True\<rparr>"

definition UNDER_HALF :: station where
  "UNDER_HALF =
     \<lparr>station_id = 2, name = ''Under half'', latitude = 43.66, longitude = -79.39,
      capacity = 1000, bikes_available = 498, docks_available = 502,
      is_renting = True, is_returning = True\<rparr>"

text \<open>
  Two stations on a diagonal: the start one degree east and one degree south of the
  end, which gives the angle \<open>-45\<close>.
\<close>

definition DIAGONAL_STATIONS :: system_data where
  "DIAGONAL_STATIONS =
    [\<lparr>station_id = 1, name = ''Start'', latitude = 0, longitude = 1, capacity = 10,
      bikes_available = 5, docks_available = 5, is_renting = True, is_returning = True\<rparr>,
     \<lparr>station_id = 2, name = ''End'', latitude = 1, longitude = 0, capacity = 10,
      bikes_available = 5, docks_available = 5, is_renting = True, is_returning = True\<rparr>]"

section \<open>The examples of the docstrings\<close>

lemma get_station_info_sample:
  "get_station_info 7087 SAMPLE_STATIONS = [Str ''Danforth/Aldridge'', Num 9, Num 14]"
  "get_station_info 7088 SAMPLE_STATIONS = [Str ''Danforth/Coxwell'', Num 13, Num 2]"
  by (simp_all add: get_station_info_def SAMPLE_STATIONS_def)

lemma get_total_sample:
  "get_total bikes_available SAMPLE_STATIONS = 22"
  "get_total docks_available SAMPLE_STATIONS = 16"
  by (simp_all add: get_total_def SAMPLE_STATIONS_def)

lemma get_stations_with_n_docks_sample:
  "get_stations_with_n_docks 2 SAMPLE_STATIONS = [7087, 7088]"
  "get_stations_with_n_docks 5 SAMPLE_STATIONS = [7087]"
  by (simp_all add: get_stations_with_n_docks_def SAMPLE_STATIONS_def)

section \<open>The float model: checks\<close>

text \<open>
  \<open>bit_length\<close> is the number of binary digits of a positive int, and \<open>ilog2\<close> is
  the exponent of a positive rational.
\<close>

lemma pow2_powi: "pow2 e = 2 powi e"
  by (simp add: pow2_def power_int_def power_inverse inverse_eq_divide flip: power_one_over)

lemma bit_length_nonneg: "0 \<le> bit_length n"
proof (induction n rule: bit_length.induct)
  case (1 n)
  show ?case
  proof (cases "n \<le> 0")
    case True
    then show ?thesis by (subst bit_length.simps) simp
  next
    case False
    with "1.IH" have "0 \<le> bit_length (n div 2)" by simp
    with False show ?thesis by (subst bit_length.simps) simp
  qed
qed

lemma bit_length_bounds:
  "0 < n \<Longrightarrow> 2 ^ nat (bit_length n - 1) \<le> n \<and> n < 2 ^ nat (bit_length n)"
proof (induction n rule: bit_length.induct)
  case (1 n)
  from "1.prems" have nle: "\<not> n \<le> 0" by simp
  have bl: "bit_length n = bit_length (n div 2) + 1"
    using nle by (subst bit_length.simps) simp
  show ?case
  proof (cases "n = 1")
    case True
    have "bit_length (0::int) = 0" by (subst bit_length.simps) simp
    with True bl show ?thesis by simp
  next
    case False
    with "1.prems" have h: "0 < n div 2" by simp
    from "1.IH"[OF nle h]
    have ih: "2 ^ nat (bit_length (n div 2) - 1) \<le> n div 2"
      "n div 2 < 2 ^ nat (bit_length (n div 2))"
      by simp_all
    define b where "b = bit_length (n div 2)"
    have pos: "0 < b"
    proof -
      have "b = bit_length (n div 2 div 2) + 1"
        unfolding b_def using h by (subst bit_length.simps) simp
      then show ?thesis using bit_length_nonneg[of "n div 2 div 2"] by simp
    qed
    then have nb: "nat b = Suc (nat (b - 1))" by simp
    have lower: "2 ^ nat b \<le> n"
    proof -
      have "(2::int) ^ nat b = 2 * 2 ^ nat (b - 1)" by (subst nb) simp
      also have "\<dots> \<le> 2 * (n div 2)" using ih(1) by (simp add: b_def)
      also have "\<dots> \<le> n" by simp
      finally show ?thesis .
    qed
    have upper: "n < 2 ^ nat (b + 1)"
    proof -
      have "n div 2 + 1 \<le> 2 ^ nat b" using ih(2) by (simp add: b_def)
      then have "2 * (n div 2) + 2 \<le> 2 * 2 ^ nat b" by simp
      moreover have "n < 2 * (n div 2) + 2" by presburger
      moreover have "(2::int) ^ nat (b + 1) = 2 * 2 ^ nat b"
        using pos by (simp add: nat_add_distrib)
      ultimately show ?thesis by simp
    qed
    from lower upper show ?thesis by (simp add: bl b_def)
  qed
qed

lemma ilog2_bounds:
  assumes "0 < x"
  shows "pow2 (ilog2 x) \<le> x \<and> x < pow2 (ilog2 x + 1)"
proof -
  obtain p q where pq: "quotient_of x = (p, q)" by (cases "quotient_of x")
  have q: "0 < q" using pq by (rule quotient_of_denom_pos)
  have x: "x = of_int p / of_int q" using pq by (rule quotient_of_div)
  have p: "0 < p"
    using assms q unfolding x by (simp add: zero_less_divide_iff)
  define d where "d = bit_length p - bit_length q"
  have il: "ilog2 x = (if pow2 d \<le> x then d else d - 1)"
    by (simp add: ilog2_def pq d_def)
  note bp = bit_length_bounds[OF p] and bq = bit_length_bounds[OF q]
  have bp1: "1 \<le> bit_length p"
    using p bit_length_nonneg[of "p div 2"] by (subst bit_length.simps) simp
  have bq1: "1 \<le> bit_length q"
    using q bit_length_nonneg[of "q div 2"] by (subst bit_length.simps) simp
  have P_lo: "(2::rat) powi (bit_length p - 1) \<le> of_int p"
  proof -
    have "(of_int (2 ^ nat (bit_length p - 1)) :: rat) \<le> of_int p"
      using bp by (simp only: of_int_le_iff)
    then show ?thesis using bp1 by (simp add: power_int_def)
  qed
  have P_hi: "(of_int p :: rat) < 2 powi (bit_length p)"
  proof -
    have "(of_int p :: rat) < of_int (2 ^ nat (bit_length p))"
      using bp by (simp only: of_int_less_iff)
    then show ?thesis using bp1 by (simp add: power_int_def)
  qed
  have Q_lo: "(2::rat) powi (bit_length q - 1) \<le> of_int q"
  proof -
    have "(of_int (2 ^ nat (bit_length q - 1)) :: rat) \<le> of_int q"
      using bq by (simp only: of_int_le_iff)
    then show ?thesis using bq1 by (simp add: power_int_def)
  qed
  have Q_hi: "(of_int q :: rat) < 2 powi (bit_length q)"
  proof -
    have "(of_int q :: rat) < of_int (2 ^ nat (bit_length q))"
      using bq by (simp only: of_int_less_iff)
    then show ?thesis using bq1 by (simp add: power_int_def)
  qed
  have qpos: "(0::rat) < of_int q" using q by simp
  have ppos: "(0::rat) < of_int p" using p by simp
  have hi: "x < pow2 (d + 1)"
  proof -
    have "of_int p < (2::rat) powi (bit_length p)" by (rule P_hi)
    also have "\<dots> = 2 powi (d + 1) * 2 powi (bit_length q - 1)"
      by (simp add: d_def flip: power_int_add)
    also have "\<dots> \<le> 2 powi (d + 1) * of_int q"
      using Q_lo by (simp add: mult_left_mono)
    finally have "of_int p / of_int q < (2::rat) powi (d + 1)"
      using qpos by (simp add: pos_divide_less_eq)
    then show ?thesis by (simp add: x pow2_powi)
  qed
  have lo: "pow2 (d - 1) \<le> x"
  proof -
    have "(2::rat) powi (d - 1) * of_int q \<le> 2 powi (d - 1) * 2 powi (bit_length q)"
      using Q_hi by (simp add: mult_left_mono)
    also have "\<dots> = 2 powi (bit_length p - 1)"
      by (simp add: d_def flip: power_int_add)
    also have "\<dots> \<le> of_int p" by (rule P_lo)
    finally have "(2::rat) powi (d - 1) \<le> of_int p / of_int q"
      using qpos by (simp add: pos_le_divide_eq)
    then show ?thesis by (simp add: x pow2_powi)
  qed
  show ?thesis
  proof (cases "pow2 d \<le> x")
    case True
    with hi il show ?thesis by simp
  next
    case False
    with lo il show ?thesis by simp
  qed
qed

text \<open>
  \<open>round_half_even\<close> is within one half of its argument, so \<open>fl\<close> is within half a
  unit in the last place. Some values: the float nearest to one tenth, two ties above
  \<open>2 ^ 53\<close>, and Python's \<open>round\<close> on halves.
\<close>

lemma round_half_even_close: "\<bar>of_int (round_half_even y) - y\<bar> \<le> 1 / 2"
proof -
  have "of_int \<lfloor>y\<rfloor> \<le> y" "y < of_int \<lfloor>y\<rfloor> + 1" by linarith+
  then show ?thesis
    by (auto simp: round_half_even_def Let_def)
qed

lemma pow2_pos: "0 < pow2 e"
  by (simp add: pow2_def)

lemma fl_error:
  assumes "x \<noteq> 0"
  shows "\<bar>fl x - x\<bar> \<le> pow2 (max (ilog2 \<bar>x\<bar>) (- 1022) - 52) / 2"
proof -
  define u where "u = pow2 (max (ilog2 \<bar>x\<bar>) (- 1022) - 52)"
  have u: "0 < u" unfolding u_def by (rule pow2_pos)
  have "fl x = of_int (round_half_even (x / u)) * u"
    using assms by (simp add: fl_def Let_def u_def)
  then have "fl x - x = (of_int (round_half_even (x / u)) - x / u) * u"
    using u by (simp add: algebra_simps)
  then have "\<bar>fl x - x\<bar> = \<bar>of_int (round_half_even (x / u)) - x / u\<bar> * u"
    using u by (simp add: abs_mult)
  also have "\<dots> \<le> (1 / 2) * u"
    using round_half_even_close[of "x / u"] u by (intro mult_right_mono) simp_all
  finally show ?thesis by (simp add: u_def)
qed

lemma fl_examples:
  "fl (1 / 10) = 3602879701896397 / 36028797018963968"
  "fl 9007199254740993 = 9007199254740992"
  "fl 9007199254740995 = 9007199254740996"
  "py_round (1 / 2) = 0" "py_round (3 / 2) = 2" "py_round (5 / 2) = 2" "py_round (- 1 / 2) = 0"
  by code_simp+

section \<open>Rent and return: properties\<close>

lemma rent_loop_absent:
  "sid \<notin> station_id ` set ss \<Longrightarrow> rent_loop sid ss r = (r, ss)"
  by (induction ss arbitrary: r) auto

lemma return_loop_absent:
  "sid \<notin> station_id ` set ss \<Longrightarrow> return_loop sid ss r = (r, ss)"
  by (induction ss arbitrary: r) auto

text \<open>
  When exactly one position carries the id, the loop either updates that position and
  nothing else, or changes nothing and returns the flag it started with.
\<close>

lemma rent_loop_unique:
  assumes "i < length ss" "station_id (ss ! i) = sid"
    and "\<forall>j<length ss. station_id (ss ! j) = sid \<longrightarrow> j = i"
  shows "rent_loop sid ss r =
     (if is_renting (ss ! i) \<and> 0 < bikes_available (ss ! i)
      then (True, ss[i := (ss ! i)\<lparr>bikes_available := bikes_available (ss ! i) - 1,
                                   docks_available := docks_available (ss ! i) + 1\<rparr>])
      else (r, ss))"
  using assms
proof (induction ss arbitrary: i r)
  case Nil
  then show ?case by simp
next
  case (Cons s ss)
  show ?case
  proof (cases i)
    case 0
    have "sid \<notin> station_id ` set ss"
    proof
      assume "sid \<in> station_id ` set ss"
      then obtain k where k: "k < length ss" "station_id (ss ! k) = sid"
        by (auto simp: in_set_conv_nth)
      with Cons.prems(3) have "Suc k = i" by auto
      with 0 show False by simp
    qed
    then have "rent_loop sid ss b = (b, ss)" for b
      by (rule rent_loop_absent)
    with 0 Cons.prems(2) show ?thesis by simp
  next
    case (Suc k)
    have hd: "station_id s \<noteq> sid"
    proof
      assume "station_id s = sid"
      with Cons.prems(3) have "0 = i" by auto
      with Suc show False by simp
    qed
    have k1: "k < length ss" using Cons.prems(1) Suc by simp
    have k2: "station_id (ss ! k) = sid" using Cons.prems(2) Suc by simp
    have u: "\<forall>j<length ss. station_id (ss ! j) = sid \<longrightarrow> j = k"
    proof (intro allI impI)
      fix j assume "j < length ss" "station_id (ss ! j) = sid"
      with Cons.prems(3) have "Suc j = i" by auto
      with Suc show "j = k" by simp
    qed
    have ih: "rent_loop sid ss r =
       (if is_renting (ss ! k) \<and> 0 < bikes_available (ss ! k)
        then (True, ss[k := (ss ! k)\<lparr>bikes_available := bikes_available (ss ! k) - 1,
                                   docks_available := docks_available (ss ! k) + 1\<rparr>])
        else (r, ss))"
      by (rule Cons.IH[OF k1 k2 u])
    show ?thesis using hd Suc by (simp add: ih)
  qed
qed

text \<open>
  \<^bold>\<open>C4.\<close> In a repository where exactly one station carries the id, \<open>rent_bike\<close>
  returns \<open>True\<close>, takes one bike from that station and adds one dock to it, leaving
  every other station as it was, when the station is renting and has a bike; otherwise
  it returns \<open>False\<close> and leaves the repository as it was. So \<open>True\<close> is returned if
  and only if the station is renting and \<open>bikes_available > 0\<close>.
\<close>

theorem rent_bike_unique_id:
  assumes "i < length stations" and "station_id (stations ! i) = sid"
    and "\<forall>j<length stations. station_id (stations ! j) = sid \<longrightarrow> j = i"
  shows "rent_bike sid stations =
     (if is_renting (stations ! i) \<and> 0 < bikes_available (stations ! i)
      then (True, stations[i := (stations ! i)
                     \<lparr>bikes_available := bikes_available (stations ! i) - 1,
                      docks_available := docks_available (stations ! i) + 1\<rparr>])
      else (False, stations))"
  unfolding rent_bike_def by (rule rent_loop_unique[OF assms])

theorem rent_bike_unique_id_witness:
  "rent_bike 7087 SAMPLE_STATIONS =
     (True, SAMPLE_STATIONS[0 := (SAMPLE_STATIONS ! 0)
                               \<lparr>bikes_available := 8, docks_available := 15\<rparr>]) \<and>
   rent_bike 7088 SAMPLE_STATIONS = (False, SAMPLE_STATIONS)"
proof -
  have a1: "0 < length SAMPLE_STATIONS" and a2: "station_id (SAMPLE_STATIONS ! 0) = 7087"
    and b1: "1 < length SAMPLE_STATIONS" and b2: "station_id (SAMPLE_STATIONS ! 1) = 7088"
    by (simp_all add: SAMPLE_STATIONS_def)
  have a3: "\<forall>j<length SAMPLE_STATIONS. station_id (SAMPLE_STATIONS ! j) = 7087 \<longrightarrow> j = 0"
  proof (intro allI impI)
    fix j assume "j < length SAMPLE_STATIONS" "station_id (SAMPLE_STATIONS ! j) = 7087"
    then show "j = 0" by (cases j) (simp_all add: SAMPLE_STATIONS_def)
  qed
  have b3: "\<forall>j<length SAMPLE_STATIONS. station_id (SAMPLE_STATIONS ! j) = 7088 \<longrightarrow> j = 1"
  proof (intro allI impI)
    fix j assume "j < length SAMPLE_STATIONS" "station_id (SAMPLE_STATIONS ! j) = 7088"
    then show "j = 1" by (cases j) (simp_all add: SAMPLE_STATIONS_def)
  qed
  have "rent_bike 7087 SAMPLE_STATIONS =
     (True, SAMPLE_STATIONS[0 := (SAMPLE_STATIONS ! 0)
                               \<lparr>bikes_available := 8, docks_available := 15\<rparr>])"
    using rent_bike_unique_id[OF a1 a2 a3] by (simp add: SAMPLE_STATIONS_def)
  moreover have "rent_bike 7088 SAMPLE_STATIONS = (False, SAMPLE_STATIONS)"
    using rent_bike_unique_id[OF b1 b2 b3] by (simp add: SAMPLE_STATIONS_def)
  ultimately show ?thesis by simp
qed

lemma return_loop_unique:
  assumes "i < length ss" "station_id (ss ! i) = sid"
    and "\<forall>j<length ss. station_id (ss ! j) = sid \<longrightarrow> j = i"
  shows "return_loop sid ss r =
     (if is_returning (ss ! i) \<and> 0 < docks_available (ss ! i)
      then (True, ss[i := (ss ! i)\<lparr>bikes_available := bikes_available (ss ! i) + 1,
                                   docks_available := docks_available (ss ! i) - 1\<rparr>])
      else (r, ss))"
  using assms
proof (induction ss arbitrary: i r)
  case Nil
  then show ?case by simp
next
  case (Cons s ss)
  show ?case
  proof (cases i)
    case 0
    have "sid \<notin> station_id ` set ss"
    proof
      assume "sid \<in> station_id ` set ss"
      then obtain k where k: "k < length ss" "station_id (ss ! k) = sid"
        by (auto simp: in_set_conv_nth)
      with Cons.prems(3) have "Suc k = i" by auto
      with 0 show False by simp
    qed
    then have "return_loop sid ss b = (b, ss)" for b
      by (rule return_loop_absent)
    with 0 Cons.prems(2) show ?thesis by simp
  next
    case (Suc k)
    have hd: "station_id s \<noteq> sid"
    proof
      assume "station_id s = sid"
      with Cons.prems(3) have "0 = i" by auto
      with Suc show False by simp
    qed
    have k1: "k < length ss" using Cons.prems(1) Suc by simp
    have k2: "station_id (ss ! k) = sid" using Cons.prems(2) Suc by simp
    have u: "\<forall>j<length ss. station_id (ss ! j) = sid \<longrightarrow> j = k"
    proof (intro allI impI)
      fix j assume "j < length ss" "station_id (ss ! j) = sid"
      with Cons.prems(3) have "Suc j = i" by auto
      with Suc show "j = k" by simp
    qed
    have ih: "return_loop sid ss r =
       (if is_returning (ss ! k) \<and> 0 < docks_available (ss ! k)
        then (True, ss[k := (ss ! k)\<lparr>bikes_available := bikes_available (ss ! k) + 1,
                                   docks_available := docks_available (ss ! k) - 1\<rparr>])
        else (r, ss))"
      by (rule Cons.IH[OF k1 k2 u])
    show ?thesis using hd Suc by (simp add: ih)
  qed
qed

text \<open>
  \<^bold>\<open>C5.\<close> In a repository where exactly one station carries the id, \<open>return_bike\<close>
  returns \<open>True\<close>, adds one bike to that station and takes one dock from it, leaving
  every other station as it was, when the station is returning and has a dock;
  otherwise it returns \<open>False\<close> and leaves the repository as it was. So \<open>True\<close> is
  returned if and only if the station is returning and \<open>docks_available > 0\<close>.
\<close>

theorem return_bike_unique_id:
  assumes "i < length stations" and "station_id (stations ! i) = sid"
    and "\<forall>j<length stations. station_id (stations ! j) = sid \<longrightarrow> j = i"
  shows "return_bike sid stations =
     (if is_returning (stations ! i) \<and> 0 < docks_available (stations ! i)
      then (True, stations[i := (stations ! i)
                     \<lparr>bikes_available := bikes_available (stations ! i) + 1,
                      docks_available := docks_available (stations ! i) - 1\<rparr>])
      else (False, stations))"
  unfolding return_bike_def by (rule return_loop_unique[OF assms])

theorem return_bike_unique_id_witness:
  "return_bike 7087 SAMPLE_STATIONS =
     (True, SAMPLE_STATIONS[0 := (SAMPLE_STATIONS ! 0)
                               \<lparr>bikes_available := 10, docks_available := 13\<rparr>]) \<and>
   return_bike 7088 SAMPLE_STATIONS = (False, SAMPLE_STATIONS)"
proof -
  have a1: "0 < length SAMPLE_STATIONS" and a2: "station_id (SAMPLE_STATIONS ! 0) = 7087"
    and b1: "1 < length SAMPLE_STATIONS" and b2: "station_id (SAMPLE_STATIONS ! 1) = 7088"
    by (simp_all add: SAMPLE_STATIONS_def)
  have a3: "\<forall>j<length SAMPLE_STATIONS. station_id (SAMPLE_STATIONS ! j) = 7087 \<longrightarrow> j = 0"
  proof (intro allI impI)
    fix j assume "j < length SAMPLE_STATIONS" "station_id (SAMPLE_STATIONS ! j) = 7087"
    then show "j = 0" by (cases j) (simp_all add: SAMPLE_STATIONS_def)
  qed
  have b3: "\<forall>j<length SAMPLE_STATIONS. station_id (SAMPLE_STATIONS ! j) = 7088 \<longrightarrow> j = 1"
  proof (intro allI impI)
    fix j assume "j < length SAMPLE_STATIONS" "station_id (SAMPLE_STATIONS ! j) = 7088"
    then show "j = 1" by (cases j) (simp_all add: SAMPLE_STATIONS_def)
  qed
  have "return_bike 7087 SAMPLE_STATIONS =
     (True, SAMPLE_STATIONS[0 := (SAMPLE_STATIONS ! 0)
                               \<lparr>bikes_available := 10, docks_available := 13\<rparr>])"
    using return_bike_unique_id[OF a1 a2 a3] by (simp add: SAMPLE_STATIONS_def)
  moreover have "return_bike 7088 SAMPLE_STATIONS = (False, SAMPLE_STATIONS)"
    using return_bike_unique_id[OF b1 b2 b3] by (simp add: SAMPLE_STATIONS_def)
  ultimately show ?thesis by simp
qed

text \<open>
  \<^bold>\<open>C10.\<close> When no station carries the id, \<open>rent_bike\<close> returns \<open>False\<close> and leaves
  the repository as it was, and so does \<open>return_bike\<close>; neither raises an exception.
\<close>

theorem rent_return_absent_id:
  assumes "sid \<notin> station_id ` set stations"
  shows "rent_bike sid stations = (False, stations) \<and>
         return_bike sid stations = (False, stations)"
  using assms by (simp add: rent_bike_def return_bike_def rent_loop_absent return_loop_absent)

theorem rent_return_absent_id_witness:
  "rent_bike 1 SAMPLE_STATIONS = (False, SAMPLE_STATIONS) \<and>
   return_bike 1 SAMPLE_STATIONS = (False, SAMPLE_STATIONS)"
proof -
  have "(1::int) \<notin> station_id ` set SAMPLE_STATIONS"
    by (simp add: SAMPLE_STATIONS_def)
  then show ?thesis by (rule rent_return_absent_id)
qed

section \<open>Queries: properties\<close>

lemma n_docks_loop_eq:
  "n_docks_loop n ss acc = acc @ map station_id (filter (\<lambda>s. n \<le> docks_available s) ss)"
  by (induction ss arbitrary: acc) simp_all

text \<open>
  \<^bold>\<open>C8.\<close> \<open>get_stations_with_n_docks\<close> returns the ids of exactly the stations with
  \<open>docks_available \<ge> n\<close>, in the order of the repository (for every \<open>n\<close>, negative
  ones included); and with \<open>n = 0\<close>, when no station has a negative number of docks,
  it returns the id of every station, in the order of the repository.
\<close>

theorem get_stations_with_n_docks_filter:
  "get_stations_with_n_docks n stations =
     map station_id (filter (\<lambda>s. n \<le> docks_available s) stations) \<and>
   ((\<forall>s \<in> set stations. 0 \<le> docks_available s) \<longrightarrow>
      get_stations_with_n_docks 0 stations = map station_id stations)"
proof
  show "get_stations_with_n_docks n stations =
     map station_id (filter (\<lambda>s. n \<le> docks_available s) stations)"
    by (simp add: get_stations_with_n_docks_def n_docks_loop_eq)
  show "(\<forall>s \<in> set stations. 0 \<le> docks_available s) \<longrightarrow>
      get_stations_with_n_docks 0 stations = map station_id stations"
  proof
    assume "\<forall>s \<in> set stations. 0 \<le> docks_available s"
    then have "filter (\<lambda>s. 0 \<le> docks_available s) stations = stations"
      by (simp add: filter_id_conv)
    then show "get_stations_with_n_docks 0 stations = map station_id stations"
      by (simp add: get_stations_with_n_docks_def n_docks_loop_eq)
  qed
qed

theorem get_stations_with_n_docks_filter_witness:
  "get_stations_with_n_docks 0 SAMPLE_STATIONS = [7087, 7088] \<and>
   get_stations_with_n_docks 3 SAMPLE_STATIONS = [7087]"
proof -
  have nonneg: "\<forall>s \<in> set SAMPLE_STATIONS. 0 \<le> docks_available s"
    by (simp add: SAMPLE_STATIONS_def)
  have "get_stations_with_n_docks 0 SAMPLE_STATIONS = map station_id SAMPLE_STATIONS"
    using get_stations_with_n_docks_filter[of 0 SAMPLE_STATIONS] nonneg by blast
  moreover have "get_stations_with_n_docks 3 SAMPLE_STATIONS =
       map station_id (filter (\<lambda>s. 3 \<le> docks_available s) SAMPLE_STATIONS)"
    using get_stations_with_n_docks_filter[of 3 SAMPLE_STATIONS] by blast
  ultimately show ?thesis by (simp add: SAMPLE_STATIONS_def)
qed

lemma max_bikes_loop_eq: "max_bikes_loop ss acc = acc @ map bikes_available ss"
  by (induction ss arbitrary: acc) simp_all

lemma py_max_from_ge: "m \<le> py_max_from m xs"
proof (induction xs arbitrary: m)
  case Nil
  show ?case by simp
next
  case (Cons x xs)
  have "(if m < x then x else m) \<le> py_max_from (if m < x then x else m) xs"
    by (rule Cons.IH)
  then show ?case by (simp split: if_splits)
qed

lemma py_max_from_upper: "x \<in> set xs \<Longrightarrow> x \<le> py_max_from m xs"
proof (induction xs arbitrary: m)
  case Nil
  then show ?case by simp
next
  case (Cons y ys)
  show ?case
  proof (cases "x = y")
    case True
    have "(if m < y then y else m) \<le> py_max_from (if m < y then y else m) ys"
      by (rule py_max_from_ge)
    with True show ?thesis by (simp split: if_splits)
  next
    case False
    with Cons.prems have "x \<in> set ys" by simp
    then show ?thesis by (simp add: Cons.IH)
  qed
qed

lemma py_max_from_mem: "py_max_from m xs \<in> set (m # xs)"
proof (induction xs arbitrary: m)
  case Nil
  show ?case by simp
next
  case (Cons y ys)
  have "py_max_from (if m < y then y else m) ys \<in> set ((if m < y then y else m) # ys)"
    by (rule Cons.IH)
  then show ?case by (auto split: if_splits)
qed

lemma py_index_first:
  "v \<in> set xs \<Longrightarrow>
     \<exists>i. py_index xs v = Inr i \<and> i < length xs \<and> xs ! i = v \<and> (\<forall>j<i. xs ! j \<noteq> v)"
proof (induction xs)
  case Nil
  then show ?case by simp
next
  case (Cons x xs)
  show ?case
  proof (cases "x = v")
    case True
    then show ?thesis by simp
  next
    case False
    with Cons.prems have "v \<in> set xs" by simp
    then obtain i where i: "py_index xs v = Inr i" "i < length xs" "xs ! i = v"
      "\<forall>j<i. xs ! j \<noteq> v"
      using Cons.IH by blast
    have "\<forall>j<Suc i. (x # xs) ! j \<noteq> v"
    proof (intro allI impI)
      fix j assume "j < Suc i"
      then show "(x # xs) ! j \<noteq> v"
        using False i(4) by (cases j) simp_all
    qed
    with False i(1,2,3) show ?thesis by simp
  qed
qed

text \<open>
  \<^bold>\<open>C7.\<close> On a non-empty repository \<open>get_station_with_max_bikes\<close> returns the id of
  a station whose \<open>bikes_available\<close> is the largest of all, namely of the earliest such
  station: every station before it has strictly fewer bikes.
\<close>

theorem get_station_with_max_bikes_first:
  assumes "stations \<noteq> []"
  shows "\<exists>i<length stations.
           get_station_with_max_bikes stations = Inr (station_id (stations ! i)) \<and>
           (\<forall>j<length stations. bikes_available (stations ! j) \<le> bikes_available (stations ! i)) \<and>
           (\<forall>j<i. bikes_available (stations ! j) < bikes_available (stations ! i))"
proof -
  define bs where "bs = map bikes_available stations"
  from assms obtain b bs' where bs: "bs = b # bs'"
    by (cases stations) (simp_all add: bs_def)
  define m where "m = py_max_from b bs'"
  have pm: "py_max bs = Inr m" by (simp add: py_max_def bs m_def)
  have mem: "m \<in> set bs" unfolding m_def bs by (rule py_max_from_mem)
  have upper: "x \<le> m" if "x \<in> set bs" for x
    using that py_max_from_ge[of b bs'] py_max_from_upper[of x bs' b]
    by (auto simp: bs m_def)
  from py_index_first[OF mem] obtain i where i: "py_index bs m = Inr i" "i < length bs"
    "bs ! i = m" "\<forall>j<i. bs ! j \<noteq> m"
    by blast
  have len: "length bs = length stations" by (simp add: bs_def)
  have nth: "bs ! j = bikes_available (stations ! j)" if "j < length stations" for j
    using that by (simp add: bs_def)
  have res: "get_station_with_max_bikes stations = Inr (station_id (stations ! i))"
    using pm i(1,2) len
    by (simp add: get_station_with_max_bikes_def max_bikes_loop_eq bs_def[symmetric])
  have all: "\<forall>j<length stations. bikes_available (stations ! j) \<le> bikes_available (stations ! i)"
  proof (intro allI impI)
    fix j assume j: "j < length stations"
    then have "bs ! j \<in> set bs" using len by simp
    then have "bs ! j \<le> m" by (rule upper)
    then show "bikes_available (stations ! j) \<le> bikes_available (stations ! i)"
      using nth[OF j] nth[of i] i(2,3) len by simp
  qed
  have before: "\<forall>j<i. bikes_available (stations ! j) < bikes_available (stations ! i)"
  proof (intro allI impI)
    fix j assume j: "j < i"
    then have jl: "j < length stations" using i(2) len by simp
    have "bs ! j \<noteq> m" using i(4) j by blast
    moreover have "bs ! j \<le> m" using upper[of "bs ! j"] jl len by simp
    ultimately have "bs ! j < m" by simp
    then show "bikes_available (stations ! j) < bikes_available (stations ! i)"
      using nth[OF jl] nth[of i] i(2,3) len by simp
  qed
  from i(2) len res all before show ?thesis by auto
qed


theorem get_station_with_max_bikes_first_witness:
  "SAMPLE_STATIONS \<noteq> [] \<and> get_station_with_max_bikes SAMPLE_STATIONS = Inr 7088"
proof -
  have ne: "SAMPLE_STATIONS \<noteq> []" by (simp add: SAMPLE_STATIONS_def)
  from get_station_with_max_bikes_first[OF ne] obtain i where
    i: "i < length SAMPLE_STATIONS"
      "get_station_with_max_bikes SAMPLE_STATIONS = Inr (station_id (SAMPLE_STATIONS ! i))"
      "\<forall>j<length SAMPLE_STATIONS.
         bikes_available (SAMPLE_STATIONS ! j) \<le> bikes_available (SAMPLE_STATIONS ! i)"
    by blast
  have "1 < length SAMPLE_STATIONS" by (simp add: SAMPLE_STATIONS_def)
  with i(3) have le: "bikes_available (SAMPLE_STATIONS ! 1) \<le> bikes_available (SAMPLE_STATIONS ! i)"
    by blast
  have "i \<noteq> 0"
  proof
    assume "i = 0"
    with le show False by (simp add: SAMPLE_STATIONS_def)
  qed
  with i(1) have "i = 1" by (simp add: SAMPLE_STATIONS_def)
  with i(2) have "get_station_with_max_bikes SAMPLE_STATIONS = Inr 7088"
    by (simp add: SAMPLE_STATIONS_def)
  with ne show ?thesis by simp
qed

section \<open>What the mutating operations keep\<close>

lemma rent_loop_sums:
  "map (\<lambda>s. bikes_available s + docks_available s) (snd (rent_loop sid ss r)) =
   map (\<lambda>s. bikes_available s + docks_available s) ss"
  by (induction ss arbitrary: r) (simp_all add: split_beta)

lemma return_loop_sums:
  "map (\<lambda>s. bikes_available s + docks_available s) (snd (return_loop sid ss r)) =
   map (\<lambda>s. bikes_available s + docks_available s) ss"
  by (induction ss arbitrary: r) (simp_all add: split_beta)

lemma move_loop_sums:
  "map (\<lambda>s. bikes_available s + docks_available s) (snd (move_loop pct ss ex de)) =
   map (\<lambda>s. bikes_available s + docks_available s) ss"
  by (induction ss arbitrary: ex de) (simp_all add: split_beta split: sum.splits)

lemma balance_sums:
  "map (\<lambda>s. bikes_available s + docks_available s) (snd (balance_all_bikes ss)) =
   map (\<lambda>s. bikes_available s + docks_available s) ss"
  by (simp add: balance_all_bikes_def move_loop_sums split: sum.splits prod.splits)


text \<open>
  \<^bold>\<open>C3.\<close> After \<open>rent_bike\<close>, \<open>return_bike\<close> and \<open>balance_all_bikes\<close>, each
  station, position by position, has the same \<open>bikes_available + docks_available\<close> as
  before (also when \<open>balance_all_bikes\<close> ends with an exception).
\<close>

theorem station_sum_conserved:
  "map (\<lambda>s. bikes_available s + docks_available s) (snd (rent_bike sid stations)) =
     map (\<lambda>s. bikes_available s + docks_available s) stations \<and>
   map (\<lambda>s. bikes_available s + docks_available s) (snd (return_bike sid stations)) =
     map (\<lambda>s. bikes_available s + docks_available s) stations \<and>
   map (\<lambda>s. bikes_available s + docks_available s) (snd (balance_all_bikes stations)) =
     map (\<lambda>s. bikes_available s + docks_available s) stations"
  by (simp add: rent_bike_def return_bike_def rent_loop_sums return_loop_sums balance_sums)

lemma rent_loop_frame: "map frame (snd (rent_loop sid ss r)) = map frame ss"
  by (induction ss arbitrary: r) (simp_all add: split_beta frame_def)

lemma return_loop_frame: "map frame (snd (return_loop sid ss r)) = map frame ss"
  by (induction ss arbitrary: r) (simp_all add: split_beta frame_def)

lemma move_loop_frame: "map frame (snd (move_loop pct ss ex de)) = map frame ss"
  by (induction ss arbitrary: ex de) (simp_all add: split_beta frame_def split: sum.splits)

lemma balance_frame: "map frame (snd (balance_all_bikes ss)) = map frame ss"
  by (simp add: balance_all_bikes_def move_loop_frame split: sum.splits prod.splits)

text \<open>
  \<^bold>\<open>C9.\<close> \<open>rent_bike\<close>, \<open>return_bike\<close> and \<open>balance_all_bikes\<close> keep the number
  of stations, their order, and the id, name, latitude, longitude, capacity, renting flag
  and returning flag of every station; only the two counts can change. The five
  queries (\<open>get_station_info\<close>, \<open>get_total\<close>, \<open>get_station_with_max_bikes\<close>,
  \<open>get_stations_with_n_docks\<close>, \<open>get_direction\<close>) contain no assignment to the
  repository or to a station, which is why they are functions that return a value only.
\<close>

theorem frame_kept:
  "length (snd (rent_bike sid stations)) = length stations \<and>
   map frame (snd (rent_bike sid stations)) = map frame stations \<and>
   length (snd (return_bike sid stations)) = length stations \<and>
   map frame (snd (return_bike sid stations)) = map frame stations \<and>
   length (snd (balance_all_bikes stations)) = length stations \<and>
   map frame (snd (balance_all_bikes stations)) = map frame stations"
proof -
  have len: "length xs = length ys" if "map frame xs = map frame ys" for xs ys :: system_data
    using that by (rule map_eq_imp_length_eq)
  have r: "map frame (snd (rent_bike sid stations)) = map frame stations"
    by (simp add: rent_bike_def rent_loop_frame)
  have t: "map frame (snd (return_bike sid stations)) = map frame stations"
    by (simp add: return_bike_def return_loop_frame)
  have b: "map frame (snd (balance_all_bikes stations)) = map frame stations"
    by (rule balance_frame)
  from r t b len[OF r] len[OF t] len[OF b] show ?thesis by simp
qed

section \<open>Direction: what the code returns\<close>

text \<open>
  Outside the boundaries \<open>0\<close>, \<open>180\<close> and \<open>-180\<close> and outside the sector from
  \<open>-67.5\<close> to \<open>-22.5\<close>, both ends included, the chain of comparisons of the source
  gives the label of the specification's table.
\<close>

lemma direction_agrees:
  assumes "- 180 < degree" "degree < 180" "degree \<noteq> 0" "\<not> (- 67.5 \<le> degree \<and> degree \<le> - 22.5)"
  shows "direction_of degree = spec_direction_of degree"
  using assms by (auto simp: direction_of_def spec_direction_of_def)


text \<open>
  On the whole sector \<open>[-67.5, -22.5)\<close>, which the specification's table labels
  NORTHWEST, the last comparison of the source (\<open>degree >= -67.5 and degree >= -22.5\<close>)
  fails and the function returns \<open>None\<close>.
\<close>

lemma direction_of_northwest_sector:
  assumes "- 67.5 \<le> degree" "degree < - 22.5"
  shows "direction_of degree = None" "spec_direction_of degree = Some ''NORTHWEST''"
  using assms by (simp_all add: direction_of_def spec_direction_of_def)

lemma get_direction_diagonal: "get_direction 1 2 DIAGONAL_STATIONS = Inr None"
proof -
  have "atan2 (0 - 1) (1 - 0) = - (pi / 4)"
    by (simp add: atan2_def arctan_minus arctan_one)
  then have "180 * atan2 (0 - 1) (1 - 0) / pi = - 45" by simp
  moreover have "direction_of (- 45) = None" by (simp add: direction_of_def)
  ultimately show ?thesis
    by (simp add: get_direction_def DIAGONAL_STATIONS_def)
qed

text \<open>
  The nudge: when the two longitudes are equal, the start longitude is moved by
  \<open>0.00001\<close> before the angle is taken, so the second argument of \<open>atan2\<close> is
  \<open>0.00001\<close> and not \<open>0\<close>.
\<close>

lemma get_direction_equal_longitude:
  assumes "coords_loop start_id end_id stations None None =
             (Some (latitude_start, lon), Some (latitude_end, lon))"
  shows "get_direction start_id end_id stations =
           Inr (direction_of (180 * atan2 (latitude_start - latitude_end) 0.00001 / pi))"
  using assms by (simp add: get_direction_def)

text \<open>
  The angle of the docstring's example, from station 7087 to station 7088, is
  \<open>arctan (993 / 6205)\<close> in degrees: between 5.625 and 11.25 (it is about 9.09).
  Every angle within 5 degrees of it is labelled \<open>'WEST'\<close>, so no rounding of the
  float computation changes the label.
\<close>

lemma arctan_sixth: "arctan (1 / 6) < pi / 16"
proof -
  have "2 * arctan (1 / 6 :: real) = arctan (12 / 35)"
    by (subst arctan_double) (simp_all add: power2_eq_square)
  then have "4 * arctan (1 / 6 :: real) = 2 * arctan (12 / 35)" by simp
  also have "\<dots> = arctan (840 / 1081)"
    by (subst arctan_double) (simp_all add: power2_eq_square)
  also have "\<dots> < arctan 1" by (rule arctan_monotone) simp
  finally show ?thesis by (simp add: arctan_one)
qed

lemma arctan_tenth: "pi / 32 < arctan (1 / 10)"
proof -
  have "2 * arctan (1 / 10 :: real) = arctan (20 / 99)"
    by (subst arctan_double) (simp_all add: power2_eq_square)
  then have "4 * arctan (1 / 10 :: real) = 2 * arctan (20 / 99)" by simp
  also have "\<dots> = arctan (3960 / 9401)"
    by (subst arctan_double) (simp_all add: power2_eq_square)
  finally have "8 * arctan (1 / 10 :: real) = 2 * arctan (3960 / 9401)" by simp
  also have "\<dots> = arctan (74455920 / 72697201)"
    by (subst arctan_double) (simp_all add: power2_eq_square)
  finally have "8 * arctan (1 / 10 :: real) = arctan (74455920 / 72697201)" .
  moreover have "arctan 1 < arctan (74455920 / 72697201 :: real)"
    by (rule arctan_monotone) simp
  ultimately show ?thesis by (simp add: arctan_one)
qed

lemma sample_angle:
  "45 / 8 < 180 * arctan (993 / 6205) / pi" "180 * arctan (993 / 6205) / pi < 45 / 4"
proof -
  have "arctan (1 / 10) < arctan (993 / 6205 :: real)" by (rule arctan_monotone) simp
  with arctan_tenth have lo: "pi / 32 < arctan (993 / 6205)" by simp
  have "arctan (993 / 6205 :: real) < arctan (1 / 6)" by (rule arctan_monotone) simp
  with arctan_sixth have hi: "arctan (993 / 6205) < pi / 16" by simp
  show "45 / 8 < 180 * arctan (993 / 6205) / pi"
    using lo by (simp add: pos_less_divide_eq)
  show "180 * arctan (993 / 6205) / pi < 45 / 4"
    using hi by (simp add: pos_divide_less_eq)
qed

lemma direction_of_near_sample:
  assumes "\<bar>d - 180 * arctan (993 / 6205) / pi\<bar> \<le> 5"
  shows "direction_of d = Some ''WEST''"
proof -
  from assms sample_angle have "0 < d" "d < 45 / 2" by linarith+
  then show ?thesis by (simp add: direction_of_def)
qed

lemma coords_sample:
  "coords_loop 7087 7088 SAMPLE_STATIONS None None =
     (Some (43.684371, -79.316756), Some (43.683378, -79.322961))"
  by (simp add: SAMPLE_STATIONS_def)

text \<open>
  \<^bold>\<open>C6.\<close> The claim: \<open>get_direction\<close> returns the label of the specification's
  table, with NORTHWEST for the sector \<open>[-67.5, -22.5)\<close>, and \<open>'SOUTHWEST'\<close> for the
  stations 7087 and 7088 of \<open>SAMPLE_STATIONS\<close>, as the docstring of the function says.
  What the code does on the docstring's own example: the start lies 0.000993 degrees
  north and 0.006205 degrees east of the end, the angle is \<open>arctan (993 / 6205)\<close>,
  about 9 degrees, and the first comparison of the chain answers \<open>'WEST'\<close>.
\<close>

theorem get_direction_sample: "get_direction 7087 7088 SAMPLE_STATIONS = Inr (Some ''WEST'')"
proof -
  have "atan2 (993 / 1000000) (1241 / 200000) = arctan (993 / 6205)"
    by (simp add: atan2_def)
  moreover have "direction_of (180 * arctan (993 / 6205) / pi) = Some ''WEST''"
    by (rule direction_of_near_sample) simp
  ultimately show ?thesis
    by (simp add: get_direction_def coords_sample)
qed

section \<open>Rebalance: properties\<close>

text \<open>The docstring's example: the two stations of the handout end at 17 and 8 bikes.\<close>

lemma handout_numbers:
  "percentage 25 46 = Inr 54"
  "station_average FT_YORK = Inr 65"
  "number_remove 54 FT_YORK = Inr 3"
  "number_add 54 FT_YORK = Inr (- 3)"
  "station_average LOWER_JARVIS = Inr 33"
  "number_remove 54 LOWER_JARVIS = Inr (- 3)"
  "number_add 54 LOWER_JARVIS = Inr 3"
  by code_simp+

lemma balance_all_bikes_handout:
  "balance_all_bikes HANDOUT_STATIONS =
     (None,
      [FT_YORK\<lparr>bikes_available := 17, docks_available := 14\<rparr>,
       LOWER_JARVIS\<lparr>bikes_available := 8, docks_available := 7\<rparr>])"
proof -
  have "overall_percentage HANDOUT_STATIONS = Inr 54"
    by (simp add: overall_percentage_def HANDOUT_STATIONS_def handout_numbers(1)
        FT_YORK_def LOWER_JARVIS_def)
  then show ?thesis
    by (simp add: balance_all_bikes_def HANDOUT_STATIONS_def handout_numbers)
      (simp add: FT_YORK_def LOWER_JARVIS_def)
qed

text \<open>
  An exception can only come from the target percentage or from the second loop, which
  computes the same three numbers for every station as the third loop does, before any
  station is touched. So when \<open>balance_all_bikes\<close> ends with an exception, the
  repository is as it was.
\<close>

lemma pools_loop_ok:
  "pools_loop pct ss ex de = Inr r \<Longrightarrow> fst (move_loop pct ss ex' de') = None"
proof (induction ss arbitrary: ex de ex' de')
  case Nil
  show ?case by simp
next
  case (Cons s ss)
  from Cons.prems obtain avg nr na where
    n: "station_average s = Inr avg" "number_remove pct s = Inr nr" "number_add pct s = Inr na"
    by (auto split: sum.splits)
  from Cons.prems n obtain ex2 de2 where "pools_loop pct ss ex2 de2 = Inr r"
    by (auto split: if_splits)
  then have "fst (move_loop pct ss a b) = None" for a b
    by (rule Cons.IH)
  then show ?case by (simp add: n split_beta)
qed

lemma balance_error_unchanged:
  assumes "fst (balance_all_bikes stations) = Some e"
  shows "snd (balance_all_bikes stations) = stations"
proof (cases "overall_percentage stations")
  case (Inl a)
  then show ?thesis by (simp add: balance_all_bikes_def)
next
  case (Inr pct)
  show ?thesis
  proof (cases "pools_loop pct stations 0 0")
    case (Inl a)
    with Inr show ?thesis by (simp add: balance_all_bikes_def)
  next
    case pools: (Inr r)
    obtain ex de where r: "r = (ex, de)" by (cases r)
    have "fst (move_loop pct stations ex de) = None"
      using pools by (rule pools_loop_ok)
    with assms Inr pools r show ?thesis by (simp add: balance_all_bikes_def)
  qed
qed

lemma total_loop_sum: "total_loop column ss acc = acc + sum_list (map column ss)"
  by (induction ss arbitrary: acc) simp_all

lemma get_total_both:
  "get_total bikes_available ss + get_total docks_available ss =
     sum_list (map (\<lambda>s. bikes_available s + docks_available s) ss)"
  by (induction ss) (simp_all add: get_total_def total_loop_sum)

lemma full_sparse_numbers:
  "percentage 504 1000 = Inr 50"
  "station_average FULL_STATION = Inr 100"
  "number_remove 50 FULL_STATION = Inr 250"
  "number_add 50 FULL_STATION = Inr (- 250)"
  "station_average SPARSE_STATION = Inr 1"
  "number_remove 50 SPARSE_STATION = Inr (- 246)"
  "number_add 50 SPARSE_STATION = Inr 246"
  by code_simp+

lemma balance_all_bikes_full_sparse:
  "balance_all_bikes [FULL_STATION, SPARSE_STATION] =
     (None,
      [FULL_STATION\<lparr>bikes_available := 250, docks_available := 250\<rparr>,
       SPARSE_STATION\<lparr>bikes_available := 250, docks_available := 250\<rparr>])"
proof -
  have "overall_percentage [FULL_STATION, SPARSE_STATION] = Inr 50"
    by (simp add: overall_percentage_def full_sparse_numbers(1)
        FULL_STATION_def SPARSE_STATION_def)
  then show ?thesis
    by (simp add: balance_all_bikes_def full_sparse_numbers)
      (simp add: FULL_STATION_def SPARSE_STATION_def)
qed

text \<open>
  \<^bold>\<open>C1, as claimed.\<close> The claim: with non-negative counts and no empty station, the
  total of \<open>bikes_available\<close> before and after \<open>balance_all_bikes\<close> differ by at most
  the number of stations. It fails on two stations of 500 places that both rent and
  return, one holding 500 bikes and one holding 4: the target of 50.4 percent is rounded
  to 50, the full station gives 250 bikes away, the other one takes 246, and the total
  goes from 504 to 500, a difference of 4 with 2 stations.
\<close>

theorem balance_total_bikes_counterexample:
  "get_total bikes_available [FULL_STATION, SPARSE_STATION] = 504 \<and>
   get_total bikes_available (snd (balance_all_bikes [FULL_STATION, SPARSE_STATION])) = 500 \<and>
   \<not> \<bar>get_total bikes_available (snd (balance_all_bikes [FULL_STATION, SPARSE_STATION]))
        - get_total bikes_available [FULL_STATION, SPARSE_STATION]\<bar>
      \<le> int (length [FULL_STATION, SPARSE_STATION])"
proof -
  have before: "get_total bikes_available [FULL_STATION, SPARSE_STATION] = 504"
    by (simp add: get_total_def FULL_STATION_def SPARSE_STATION_def)
  have after: "get_total bikes_available (snd (balance_all_bikes [FULL_STATION, SPARSE_STATION])) = 500"
    by (simp add: balance_all_bikes_full_sparse get_total_def)
  show ?thesis unfolding before after by simp
qed

text \<open>
  The total of bikes also changes where nothing is rounded: a station that is over the
  target and rents gives its surplus away whether or not any station can take it.
\<close>

lemma gated_numbers:
  "percentage 6 12 = Inr 50"
  "station_average SIX_BIKES = Inr 100"
  "number_remove 50 SIX_BIKES = Inr 3"
  "number_add 50 SIX_BIKES = Inr (- 3)"
  "station_average CLOSED_STATION = Inr 0"
  "number_remove 50 CLOSED_STATION = Inr (- 3)"
  "number_add 50 CLOSED_STATION = Inr 3"
  by code_simp+

lemma balance_all_bikes_gated:
  "balance_all_bikes [SIX_BIKES, CLOSED_STATION] =
     (None, [SIX_BIKES\<lparr>bikes_available := 3, docks_available := 3\<rparr>, CLOSED_STATION])"
proof -
  have "overall_percentage [SIX_BIKES, CLOSED_STATION] = Inr 50"
    by (simp add: overall_percentage_def gated_numbers(1) SIX_BIKES_def CLOSED_STATION_def)
  then show ?thesis
    by (simp add: balance_all_bikes_def gated_numbers)
      (simp add: SIX_BIKES_def CLOSED_STATION_def)
qed

text \<open>
  \<^bold>\<open>C1, amended.\<close> What \<open>balance_all_bikes\<close> conserves is the total of
  \<open>bikes_available\<close> plus \<open>docks_available\<close> over the repository: it is the same
  before and after the call, for every repository (also when the call ends with an
  exception). The total of \<open>bikes_available\<close> alone is not bounded in this way.
\<close>

theorem balance_total_places_conserved:
  "get_total bikes_available (snd (balance_all_bikes stations)) +
     get_total docks_available (snd (balance_all_bikes stations)) =
   get_total bikes_available stations + get_total docks_available stations"
  by (simp only: get_total_both balance_sums)

lemma move_loop_balanced:
  "\<forall>s \<in> set ss. station_average s = Inr pct \<Longrightarrow> snd (move_loop pct ss ex de) = ss"
  by (induction ss arbitrary: ex de) (simp_all add: split_beta split: sum.splits)

lemma balance_balanced:
  assumes "overall_percentage stations = Inr pct"
    and "\<forall>s \<in> set stations. station_average s = Inr pct"
  shows "snd (balance_all_bikes stations) = stations"
  using assms by (simp add: balance_all_bikes_def move_loop_balanced split: sum.splits prod.splits)

text \<open>
  \<^bold>\<open>C2.\<close> When the rounded percentage of every station equals the rounded percentage
  of the whole repository, \<open>balance_all_bikes\<close> leaves the repository as it was: no
  count of any station changes, whatever \<open>number_remove\<close> and \<open>number_add\<close> are
  for it. Hence a second call right after changes nothing either.
\<close>

theorem balance_all_bikes_balanced:
  assumes "overall_percentage stations = Inr pct"
    and "\<forall>s \<in> set stations. station_average s = Inr pct"
  shows "snd (balance_all_bikes stations) = stations \<and>
         snd (balance_all_bikes (snd (balance_all_bikes stations))) = stations"
  using balance_balanced[OF assms] by simp

lemma half_numbers:
  "percentage 1000 2000 = Inr 50"
  "station_average OVER_HALF = Inr 50"
  "station_average UNDER_HALF = Inr 50"
  "number_remove 50 OVER_HALF = Inr 2"
  "number_add 50 UNDER_HALF = Inr 2"
  by code_simp+

theorem balance_all_bikes_balanced_witness:
  "overall_percentage [OVER_HALF, UNDER_HALF] = Inr 50 \<and>
   station_average OVER_HALF = Inr 50 \<and> station_average UNDER_HALF = Inr 50 \<and>
   snd (balance_all_bikes [OVER_HALF, UNDER_HALF]) = [OVER_HALF, UNDER_HALF] \<and>
   snd (balance_all_bikes (snd (balance_all_bikes [OVER_HALF, UNDER_HALF]))) =
     [OVER_HALF, UNDER_HALF]"
proof -
  have ov: "overall_percentage [OVER_HALF, UNDER_HALF] = Inr 50"
    by (simp add: overall_percentage_def half_numbers(1) OVER_HALF_def UNDER_HALF_def)
  have each: "\<forall>s \<in> set [OVER_HALF, UNDER_HALF]. station_average s = Inr 50"
    by (simp add: half_numbers)
  from balance_all_bikes_balanced[OF ov each] ov half_numbers(2,3) show ?thesis by simp
qed

end
